theory Spec2Isabelle
  imports Main
begin

section \<open>The GPIO doorbell accessory\<close>

text \<open>
  A shallow embedding of the class \<open>GpioDoorbellAccessory\<close>. The fields of the object
  are a record, every call into a collaborator (logger, GPIO driver, persisted storage,
  HomeKit service, HTTP client, timers) is appended to a list of effects in program order,
  and what the collaborators answer is a parameter (\<open>world\<close>). Each reading of
  \<open>Date.now()\<close> is an integer argument of the function that takes the reading.
\<close>

subsection \<open>Configuration\<close>

record config =
  name :: string
  gpioPin :: nat
  outputGpioPin :: nat
  enableOutput :: bool
  negateInput :: bool
  glitchTime :: int
  throttleTime :: int
  enableHttpTrigger :: bool
  httpTriggerUrl :: "string option"

subsection \<open>Collaborators\<close>

text \<open>
  The error object an HTTP request fails with: \<open>e.response\<close> (status and data) when the
  server answered, and \<open>e.message\<close>.
\<close>

record http_error =
  response :: "(nat \<times> string) option"
  message :: "string option"

text \<open>
  \<open>axios.get(url)\<close> returns a promise; a network error or a status outside 2xx rejects
  that promise. A call that throws before it returns a promise is kept as a separate case,
  since the source wraps the call in \<open>try\<close>/\<open>catch\<close>.
\<close>

datatype settlement = Fulfils | Rejects http_error

datatype axios_call = Throws http_error | Returns settlement

record world =
  gpio_read :: "nat \<Rightarrow> string + bool"
  axios_get :: "string \<Rightarrow> axios_call"

datatype message =
    Loaded
  | EnableOutputOnPin nat
  | PinChanged nat bool int
  | IgnoreNotLast
  | IgnoreNoChange "bool option" "bool option"
  | SettingPin nat bool
  | ThrottleNotExpired nat
  | Rang string
  | ForwardingDirectly
  | PerformingRequest string
  | WebhookFailedStatus nat string
  | WebhookFailedMessage "string option"
  | ReadFailed string
  | SetMuteTo bool
  | GetMute

datatype effect =
    LogDebug message
  | LogInfo message
  | LogError message
  | GpioOnChange
  | GpioSetupIn nat
  | GpioSetupLow nat
  | GpioRead nat
  | GpioWrite nat bool
  | UpdateMute bool
  | SinglePress
  | AxiosGet string
  | UnhandledRejection http_error

text \<open>
  A promise whose continuation has not run yet: the read of a channel, with the cell of the
  local variable \<open>value\<close> that its \<open>then\<close>/\<open>catch\<close> handlers capture, or a request whose
  promise nobody holds.
\<close>

datatype task = ReadPending nat nat | AxiosPending settlement

subsection \<open>The object\<close>

record doorbell =
  lastRang :: "int option"
  doorbellMute :: bool
  lastPinChangeDate :: "int option"
  currentPinValue :: "bool option"
  storage :: "string \<rightharpoonup> bool"
  cells :: "bool option list"
  microtasks :: "task list"
  timers :: "(int \<times> nat \<times> int) list"
  effects :: "effect list"

definition doorbellMuteKey :: string where
  "doorbellMuteKey = ''homebridge-gpio-doorbell.mute''"

definition emit :: "effect \<Rightarrow> doorbell \<Rightarrow> doorbell" where
  "emit e st = st\<lparr>effects := effects st @ [e]\<rparr>"

text \<open>JavaScript truthiness of an optional number, string and boolean.\<close>

definition truthy_number :: "int option \<Rightarrow> bool" where
  "truthy_number v = (case v of None \<Rightarrow> False | Some n \<Rightarrow> n \<noteq> 0)"

definition truthy_string :: "string option \<Rightarrow> bool" where
  "truthy_string v = (case v of None \<Rightarrow> False | Some s \<Rightarrow> s \<noteq> [])"

definition truthy_boolean :: "bool option \<Rightarrow> bool" where
  "truthy_boolean v = (case v of None \<Rightarrow> False | Some b \<Rightarrow> b)"

subsection \<open>read\<close>

text \<open>
  Lines 79-90. \<open>read(channel)\<close> declares the local \<open>value\<close> (a fresh cell holding \<open>undefined\<close>), starts
  the read and attaches the handlers (the promise is queued with the cell), and returns the
  content of the cell as it is at that moment. The handlers run later, in \<open>settle\<close>.
\<close>

definition read :: "nat \<Rightarrow> doorbell \<Rightarrow> bool option \<times> doorbell" where
  "read channel st =
     (let cell = length (cells st);
          st1 = st\<lparr>cells := cells st @ [None]\<rparr>;
          st2 = (emit (GpioRead channel) st1)
                  \<lparr>microtasks := microtasks st1 @ [ReadPending channel cell]\<rparr>
      in (cells st2 ! cell, st2))"

text \<open>
  A queued promise settles: the \<open>then\<close> handler of a read stores the level in the cell, the
  \<open>catch\<close> handler logs the error and stores \<open>undefined\<close>. The promise of \<open>axios.get\<close> has
  no handler, so its rejection is unhandled.
\<close>

fun settle :: "world \<Rightarrow> task \<Rightarrow> doorbell \<Rightarrow> doorbell" where
  "settle w (ReadPending channel cell) st =
     (case gpio_read w channel of
        Inr val \<Rightarrow> st\<lparr>cells := (cells st)[cell := Some val]\<rparr>
      | Inl err \<Rightarrow> (emit (LogError (ReadFailed err)) st)\<lparr>cells := (cells st)[cell := None]\<rparr>)"
| "settle w (AxiosPending Fulfils) st = st"
| "settle w (AxiosPending (Rejects e)) st = emit (UnhandledRejection e) st"

subsection \<open>Construction\<close>

text \<open>
  Lines 92-102 and 29-73. The constructor restores the mute flag from the storage
  (\<open>getItemSync(key) || false\<close>), stores it back, publishes it and sets the pins up; the
  value of the input pin is seeded from \<open>read\<close>.
\<close>

definition setupGpio :: "config \<Rightarrow> doorbell \<Rightarrow> doorbell" where
  "setupGpio cfg st =
     (let st1 = emit (GpioSetupIn (gpioPin cfg)) (emit GpioOnChange st);
          (v, st2) = read (gpioPin cfg) st1;
          st3 = st2\<lparr>currentPinValue := v\<rparr>
      in if enableOutput cfg
         then emit (GpioSetupLow (outputGpioPin cfg))
                (emit (LogDebug (EnableOutputOnPin (outputGpioPin cfg))) st3)
         else st3)"

definition constructor :: "config \<Rightarrow> (string \<rightharpoonup> bool) \<Rightarrow> doorbell" where
  "constructor cfg persisted =
     (let st0 = \<lparr>lastRang = None, doorbellMute = False, lastPinChangeDate = None,
                 currentPinValue = None, storage = persisted, cells = [], microtasks = [],
                 timers = [], effects = [LogDebug Loaded]\<rparr>;
          st1 = st0\<lparr>doorbellMute :=
                      (case storage st0 doorbellMuteKey of Some b \<Rightarrow> b | None \<Rightarrow> False)\<rparr>;
          st2 = st1\<lparr>storage := (storage st1)(doorbellMuteKey \<mapsto> doorbellMute st1)\<rparr>;
          st3 = emit (UpdateMute (doorbellMute st2)) st2
      in setupGpio cfg st3)"

subsection \<open>Mute\<close>

text \<open>Lines 215-229.\<close>

definition handleMuteSet :: "config \<Rightarrow> bool \<Rightarrow> doorbell \<Rightarrow> doorbell" where
  "handleMuteSet cfg v st =
     (let st1 = emit (LogDebug (SetMuteTo v)) st;
          st2 = st1\<lparr>doorbellMute := v\<rparr>;
          st3 = st2\<lparr>storage := (storage st2)(doorbellMuteKey \<mapsto> doorbellMute st2)\<rparr>
      in if \<not> doorbellMute st3 \<and> enableOutput cfg
         then emit (GpioWrite (outputGpioPin cfg) False) st3
         else st3)"

definition handleMuteGet :: "doorbell \<Rightarrow> bool \<times> doorbell" where
  "handleMuteGet st = (doorbellMute st, emit (LogDebug GetMute) st)"

subsection \<open>Pin changes\<close>

text \<open>
  Lines 109-124 and 209-212. \<open>handlePinChange\<close> stamps the change with \<open>Date.now()\<close> (the argument \<open>now\<close>) and sets a
  timer of \<open>glitchTime\<close> milliseconds that carries the pin and that stamp. A pending timer
  is kept as the arguments of \<open>setTimeout\<close>: the delay, the pin and the stamp.
\<close>

definition handlePinChange :: "config \<Rightarrow> int \<Rightarrow> nat \<Rightarrow> bool \<Rightarrow> doorbell \<Rightarrow> doorbell" where
  "handlePinChange cfg now pin circuitOpen st =
     (let st1 = st\<lparr>lastPinChangeDate := Some now\<rparr>;
          st2 = emit (LogDebug (PinChanged pin circuitOpen now)) st1
      in st2\<lparr>timers := timers st2 @ [(glitchTime cfg, pin, now)]\<rparr>)"

text \<open>Lines 146-150: the derivation of \<open>buttonPushed\<close> from the value read and \<open>negateInput\<close>.\<close>

definition buttonPushed :: "bool option \<Rightarrow> bool \<Rightarrow> bool" where
  "buttonPushed currentValue negate =
     (let pushed = \<not> truthy_boolean currentValue
      in if negate then \<not> pushed else pushed)"

text \<open>Lines 152-161: the write to the output pin, unless output is disabled or the bell is muted.\<close>

definition mirrorOutput :: "config \<Rightarrow> bool \<Rightarrow> doorbell \<Rightarrow> doorbell" where
  "mirrorOutput cfg pushed st =
     (if enableOutput cfg \<and> \<not> doorbellMute st
      then emit (GpioWrite (outputGpioPin cfg) pushed)
             (emit (LogDebug (SettingPin (outputGpioPin cfg) pushed)) st)
      else st)"

text \<open>Lines 166-169, the throttle test: \<open>this.lastRang && this.lastRang + throttleTime >= now\<close>.\<close>

definition throttled :: "config \<Rightarrow> int \<Rightarrow> doorbell \<Rightarrow> bool" where
  "throttled cfg now st =
     (truthy_number (lastRang st) \<and>
      (case lastRang st of None \<Rightarrow> False | Some t0 \<Rightarrow> t0 + throttleTime cfg \<ge> now))"

text \<open>
  Lines 178-206: the ring is forwarded to HomeKit, or to the webhook when one is configured.
  The \<open>catch\<close> block runs only when \<open>axios.get\<close> throws before it returns its promise.
\<close>

definition forwardRing :: "config \<Rightarrow> world \<Rightarrow> doorbell \<Rightarrow> doorbell" where
  "forwardRing cfg w st =
     (let st1 = emit (LogInfo (Rang (name cfg))) st
      in if \<not> enableHttpTrigger cfg \<or> \<not> truthy_string (httpTriggerUrl cfg)
         then emit SinglePress (emit (LogInfo ForwardingDirectly) st1)
         else
           (let url = (case httpTriggerUrl cfg of Some u \<Rightarrow> u | None \<Rightarrow> []);
                st2 = emit (AxiosGet url) (emit (LogInfo (PerformingRequest url)) st1)
            in case axios_get w url of
                 Returns s \<Rightarrow> st2\<lparr>microtasks := microtasks st2 @ [AxiosPending s]\<rparr>
               | Throws e \<Rightarrow>
                   (case response e of
                      Some (status, body) \<Rightarrow> emit (LogError (WebhookFailedStatus status body)) st2
                    | None \<Rightarrow> emit (LogError (WebhookFailedMessage (message e))) st2)))"

text \<open>
  Lines 136-207: the body of the timer callback from the comparison with the last
  processed value on, as a function of the value read;
  \<open>now1\<close> and \<open>now2\<close> are the two readings of \<open>Date.now()\<close> in the throttle block.
\<close>

definition processChange ::
  "config \<Rightarrow> world \<Rightarrow> int \<Rightarrow> int \<Rightarrow> nat \<Rightarrow> bool option \<Rightarrow> doorbell \<Rightarrow> doorbell" where
  "processChange cfg w now1 now2 pin currentValue st =
     (if currentValue = currentPinValue st
      then emit (LogDebug (IgnoreNoChange currentValue (currentPinValue st))) st
      else
        (let st1 = st\<lparr>currentPinValue := currentValue\<rparr>;
             pushed = buttonPushed currentValue (negateInput cfg);
             st2 = mirrorOutput cfg pushed st1
         in if pushed
            then (if throttled cfg now1 st2
                  then emit (LogDebug (ThrottleNotExpired pin)) st2
                  else forwardRing cfg w (st2\<lparr>lastRang := Some now2\<rparr>))
            else st2))"

text \<open>Lines 125-135: the timer callback; the staleness test, the read, and the body above.\<close>

definition timerCallback ::
  "config \<Rightarrow> world \<Rightarrow> int \<Rightarrow> int \<Rightarrow> nat \<Rightarrow> int \<Rightarrow> doorbell \<Rightarrow> doorbell" where
  "timerCallback cfg w now1 now2 pin changeTimeStamp st =
     (if lastPinChangeDate st \<noteq> Some changeTimeStamp
      then emit (LogDebug IgnoreNotLast) st
      else
        (let (currentValue, st1) = read pin st
         in processChange cfg w now1 now2 pin currentValue st1))"

subsection \<open>The event loop\<close>

text \<open>
  What happens to the object after construction, one event at a time: the GPIO driver
  reports a change (with the reading of the clock that \<open>handlePinChange\<close> takes), a
  pending timer fires (with the two readings of the clock its callback may take), a pending
  promise settles, or HomeKit sets or gets the mute characteristic.
\<close>

datatype event =
    Change int nat bool
  | Timeout nat int int
  | Settled nat
  | MuteSet bool
  | MuteGet

definition drop_nth :: "nat \<Rightarrow> 'a list \<Rightarrow> 'a list" where
  "drop_nth k xs = take k xs @ drop (Suc k) xs"

text \<open>
  One event. A timer that fires leaves the list of pending timers, a promise that settles
  leaves the queue. When the runtime fires a pending timer is left open: any pending timer
  may fire at any event, so every order the runtime can produce is a run. An event that
  cannot happen (no such timer, no such promise) gives \<open>None\<close>.
\<close>

fun step :: "config \<Rightarrow> world \<Rightarrow> event \<Rightarrow> doorbell \<Rightarrow> doorbell option" where
  "step cfg w (Change now pin circuitOpen) st = Some (handlePinChange cfg now pin circuitOpen st)"
| "step cfg w (Timeout k now1 now2) st =
     (if k < length (timers st)
      then (case timers st ! k of
              (delay, pin, ts) \<Rightarrow>
                Some (timerCallback cfg w now1 now2 pin ts
                        (st\<lparr>timers := drop_nth k (timers st)\<rparr>)))
      else None)"
| "step cfg w (Settled k) st =
     (if k < length (microtasks st)
      then Some (settle w (microtasks st ! k) (st\<lparr>microtasks := drop_nth k (microtasks st)\<rparr>))
      else None)"
| "step cfg w (MuteSet v) st = Some (handleMuteSet cfg v st)"
| "step cfg w MuteGet st = Some (snd (handleMuteGet st))"

text \<open>A run: the events in order, each with what the collaborators answer at that time.\<close>

fun run :: "config \<Rightarrow> (world \<times> event) list \<Rightarrow> doorbell \<Rightarrow> doorbell option" where
  "run cfg [] st = Some st"
| "run cfg ((w, ev) # evs) st =
     (case step cfg w ev st of None \<Rightarrow> None | Some st' \<Rightarrow> run cfg evs st')"

subsection \<open>Observations\<close>

text \<open>
  The writes to a GPIO pin and the rings sent to a sink (the HomeKit event or the request
  to the webhook) among the effects of a state, in program order.
\<close>

fun isWrite :: "effect \<Rightarrow> bool" where
  "isWrite (GpioWrite p v) = True"
| "isWrite _ = False"

fun isRing :: "effect \<Rightarrow> bool" where
  "isRing SinglePress = True"
| "isRing (AxiosGet u) = True"
| "isRing _ = False"

fun isError :: "effect \<Rightarrow> bool" where
  "isError (LogError m) = True"
| "isError _ = False"

definition writes :: "doorbell \<Rightarrow> effect list" where
  "writes st = filter isWrite (effects st)"

definition rings :: "doorbell \<Rightarrow> effect list" where
  "rings st = filter isRing (effects st)"

definition errors :: "doorbell \<Rightarrow> effect list" where
  "errors st = filter isError (effects st)"

text \<open>
  The derivation of the press as the specification words it,
  \<open>pushed = invertInput ? value : !value\<close>, on a level that may be unset.
\<close>

definition pushed_spec :: "bool \<Rightarrow> bool option \<Rightarrow> bool option" where
  "pushed_spec invertInput v = (if invertInput then v else Some (\<not> truthy_boolean v))"

subsection \<open>Sample inputs\<close>

definition sample_config :: config where
  "sample_config =
     \<lparr>name = ''Front door'', gpioPin = 7, outputGpioPin = 11, enableOutput = True,
      negateInput = False, glitchTime = 100, throttleTime = 1000,
      enableHttpTrigger = False, httpTriggerUrl = None\<rparr>"

definition webhook_config :: config where
  "webhook_config =
     sample_config\<lparr>enableHttpTrigger := True, httpTriggerUrl := Some ''http://hub/ring''\<rparr>"

definition server_error :: http_error where
  "server_error = \<lparr>response = Some (500, ''down''), message = Some ''Request failed''\<rparr>"

definition failing_world :: world where
  "failing_world =
     \<lparr>gpio_read = (\<lambda>channel. Inl ''EIO''),
      axios_get = (\<lambda>url. Returns (Rejects server_error))\<rparr>"

definition quiet_world :: world where
  "quiet_world =
     \<lparr>gpio_read = (\<lambda>channel. Inr True), axios_get = (\<lambda>url. Returns Fulfils)\<rparr>"

section \<open>Properties\<close>

subsection \<open>Auxiliary facts\<close>

lemma writes_emit: "writes (emit e st) = writes st @ (if isWrite e then [e] else [])"
  by (simp add: writes_def emit_def)

lemma rings_emit: "rings (emit e st) = rings st @ (if isRing e then [e] else [])"
  by (simp add: rings_def emit_def)

lemma emit_fields:
  "lastRang (emit e st) = lastRang st"
  "doorbellMute (emit e st) = doorbellMute st"
  "lastPinChangeDate (emit e st) = lastPinChangeDate st"
  "currentPinValue (emit e st) = currentPinValue st"
  "storage (emit e st) = storage st"
  "cells (emit e st) = cells st"
  "microtasks (emit e st) = microtasks st"
  "timers (emit e st) = timers st"
  "effects (emit e st) = effects st @ [e]"
  by (simp_all add: emit_def)

lemma mirrorOutput_fields:
  "lastRang (mirrorOutput cfg p st) = lastRang st"
  "doorbellMute (mirrorOutput cfg p st) = doorbellMute st"
  "lastPinChangeDate (mirrorOutput cfg p st) = lastPinChangeDate st"
  "currentPinValue (mirrorOutput cfg p st) = currentPinValue st"
  "rings (mirrorOutput cfg p st) = rings st"
  "writes (mirrorOutput cfg p st) =
     writes st @ (if enableOutput cfg \<and> \<not> doorbellMute st
                  then [GpioWrite (outputGpioPin cfg) p] else [])"
  by (simp_all add: mirrorOutput_def emit_fields rings_emit writes_emit)

lemma forwardRing_fields:
  "lastRang (forwardRing cfg w st) = lastRang st"
  "doorbellMute (forwardRing cfg w st) = doorbellMute st"
  "lastPinChangeDate (forwardRing cfg w st) = lastPinChangeDate st"
  "currentPinValue (forwardRing cfg w st) = currentPinValue st"
  "writes (forwardRing cfg w st) = writes st"
  by (simp_all add: forwardRing_def Let_def emit_def writes_def
      split: axios_call.splits option.splits prod.splits)

lemma forwardRing_rings:
  "rings (forwardRing cfg w st) =
     rings st @ [if \<not> enableHttpTrigger cfg \<or> \<not> truthy_string (httpTriggerUrl cfg)
                 then SinglePress else AxiosGet (the (httpTriggerUrl cfg))]"
  by (simp add: forwardRing_def Let_def rings_def emit_def truthy_string_def
      split: axios_call.splits option.splits prod.splits)

lemma throttled_cong:
  "lastRang st' = lastRang st \<Longrightarrow> throttled cfg now st' = throttled cfg now st"
  by (simp add: throttled_def)

lemma throttled_iff:
  "throttled cfg now st \<longleftrightarrow> (\<exists>t0. lastRang st = Some t0 \<and> t0 \<noteq> 0 \<and> now - t0 \<le> throttleTime cfg)"
  by (auto simp add: throttled_def truthy_number_def split: option.splits)

lemma processChange_accepted:
  assumes "currentValue \<noteq> currentPinValue st"
  shows "processChange cfg w now1 now2 pin currentValue st =
     (let pushed = buttonPushed currentValue (negateInput cfg);
          st2 = mirrorOutput cfg pushed (st\<lparr>currentPinValue := currentValue\<rparr>)
      in if pushed
         then (if throttled cfg now1 st
               then emit (LogDebug (ThrottleNotExpired pin)) st2
               else forwardRing cfg w (st2\<lparr>lastRang := Some now2\<rparr>))
         else st2)"
  using assms
  by (simp add: processChange_def Let_def throttled_cong [of "mirrorOutput cfg p s" for p s]
      mirrorOutput_fields)

lemma writes_update:
  "writes (st\<lparr>currentPinValue := c\<rparr>) = writes st"
  "writes (st\<lparr>lastRang := r\<rparr>) = writes st"
  "rings (st\<lparr>currentPinValue := c\<rparr>) = rings st"
  "rings (st\<lparr>lastRang := r\<rparr>) = rings st"
  "writes (st\<lparr>lastPinChangeDate := d\<rparr>) = writes st"
  "rings (st\<lparr>lastPinChangeDate := d\<rparr>) = rings st"
  by (simp_all add: writes_def rings_def)

lemma constructor_fields:
  "currentPinValue (constructor cfg persisted) = None"
  "lastRang (constructor cfg persisted) = None"
  "lastPinChangeDate (constructor cfg persisted) = None"
  "doorbellMute (constructor cfg persisted) =
     (case persisted doorbellMuteKey of Some b \<Rightarrow> b | None \<Rightarrow> False)"
  "writes (constructor cfg persisted) = []"
  "rings (constructor cfg persisted) = []"
  "errors (constructor cfg persisted) = []"
  "timers (constructor cfg persisted) = []"
  by (simp_all add: constructor_def setupGpio_def read_def emit_def Let_def writes_def
      rings_def errors_def)

lemma handleMuteSet_fields:
  "currentPinValue (handleMuteSet cfg v st) = currentPinValue st"
  "lastRang (handleMuteSet cfg v st) = lastRang st"
  "lastPinChangeDate (handleMuteSet cfg v st) = lastPinChangeDate st"
  "doorbellMute (handleMuteSet cfg v st) = v"
  "rings (handleMuteSet cfg v st) = rings st"
  by (simp_all add: handleMuteSet_def emit_def Let_def rings_def)

lemma handleMuteSet_writes:
  "writes (handleMuteSet cfg v st) =
     writes st @ (if \<not> v \<and> enableOutput cfg then [GpioWrite (outputGpioPin cfg) False] else [])"
  by (simp add: handleMuteSet_def emit_def Let_def writes_def)

lemma read_fields:
  "currentPinValue (snd (read channel st)) = currentPinValue st"
  "lastRang (snd (read channel st)) = lastRang st"
  "lastPinChangeDate (snd (read channel st)) = lastPinChangeDate st"
  "doorbellMute (snd (read channel st)) = doorbellMute st"
  "writes (snd (read channel st)) = writes st"
  "rings (snd (read channel st)) = rings st"
  "errors (snd (read channel st)) = errors st"
  "microtasks (snd (read channel st)) = microtasks st @ [ReadPending channel (length (cells st))]"
  by (simp_all add: read_def emit_def Let_def writes_def rings_def errors_def)

lemma timerCallback_fresh:
  assumes "lastPinChangeDate st = Some ts"
  shows "timerCallback cfg w now1 now2 pin ts st =
           processChange cfg w now1 now2 pin None (snd (read pin st))"
  using assms by (simp add: timerCallback_def read_def Let_def emit_def)

lemma timerCallback_stale:
  assumes "lastPinChangeDate st \<noteq> Some ts"
  shows "timerCallback cfg w now1 now2 pin ts st = emit (LogDebug IgnoreNotLast) st"
  using assms by (simp add: timerCallback_def)

lemma sample_config_fields:
  "enableOutput sample_config" "\<not> negateInput sample_config"
  "outputGpioPin sample_config = 11" "gpioPin sample_config = 7"
  "throttleTime sample_config = 1000" "glitchTime sample_config = 100"
  "\<not> enableHttpTrigger sample_config" "httpTriggerUrl sample_config = None"
  by (simp_all add: sample_config_def)

lemma webhook_config_fields:
  "enableOutput webhook_config" "\<not> negateInput webhook_config"
  "outputGpioPin webhook_config = 11" "gpioPin webhook_config = 7"
  "throttleTime webhook_config = 1000" "glitchTime webhook_config = 100"
  "enableHttpTrigger webhook_config" "httpTriggerUrl webhook_config = Some ''http://hub/ring''"
  by (simp_all add: webhook_config_def sample_config_def)

lemma buttonPushed_simps:
  "buttonPushed (Some b) negate = (if negate then b else \<not> b)"
  "buttonPushed None negate = (\<not> negate)"
  by (simp_all add: buttonPushed_def truthy_boolean_def)

lemma handlePinChange_fields:
  "lastPinChangeDate (handlePinChange cfg now pin lvl st) = Some now"
  "timers (handlePinChange cfg now pin lvl st) = timers st @ [(glitchTime cfg, pin, now)]"
  "currentPinValue (handlePinChange cfg now pin lvl st) = currentPinValue st"
  "lastRang (handlePinChange cfg now pin lvl st) = lastRang st"
  "doorbellMute (handlePinChange cfg now pin lvl st) = doorbellMute st"
  "cells (handlePinChange cfg now pin lvl st) = cells st"
  "microtasks (handlePinChange cfg now pin lvl st) = microtasks st"
  "writes (handlePinChange cfg now pin lvl st) = writes st"
  "rings (handlePinChange cfg now pin lvl st) = rings st"
  "errors (handlePinChange cfg now pin lvl st) = errors st"
  by (simp_all add: handlePinChange_def Let_def emit_def writes_def rings_def errors_def)

lemma constructor_cells: "cells (constructor cfg persisted) = [None]"
  by (simp add: constructor_def setupGpio_def read_def Let_def emit_def)

lemma settle_fields:
  "currentPinValue (settle w t st) = currentPinValue st"
  "lastPinChangeDate (settle w t st) = lastPinChangeDate st"
  "timers (settle w t st) = timers st"
  "lastRang (settle w t st) = lastRang st"
  "rings (settle w t st) = rings st"
  by (induction w t st rule: settle.induct; simp add: emit_def rings_def split: sum.splits)+

lemma processChange_same:
  assumes "currentValue = currentPinValue st"
  shows "processChange cfg w now1 now2 pin currentValue st =
           emit (LogDebug (IgnoreNoChange currentValue currentValue)) st"
  using assms by (simp add: processChange_def)

lemma timerCallback_unset:
  assumes "currentPinValue st = None"
  shows "timerCallback cfg w now1 now2 pin ts st =
           (if lastPinChangeDate st \<noteq> Some ts then emit (LogDebug IgnoreNotLast) st
            else emit (LogDebug (IgnoreNoChange None None)) (snd (read pin st)))"
  using assms
  by (simp add: timerCallback_fresh timerCallback_stale processChange_same read_fields)

lemma step_unset:
  assumes "currentPinValue st = None" and "step cfg w ev st = Some st'"
  shows "currentPinValue st' = None"
proof (cases ev)
  case (Timeout k now1 now2)
  with assms show ?thesis
    by (auto simp add: timerCallback_unset emit_fields read_fields
        split: if_splits prod.splits)
qed (use assms in \<open>auto simp add: handlePinChange_def Let_def emit_def settle_fields
       handleMuteSet_fields handleMuteGet_def split: if_splits\<close>)

lemma run_unset:
  assumes "currentPinValue st = None" and "run cfg evs st = Some st'"
  shows "currentPinValue st' = None"
  using assms
proof (induction evs arbitrary: st)
  case Nil
  then show ?case by simp
next
  case (Cons a evs)
  obtain w ev where a: "a = (w, ev)" by (cases a)
  with Cons.prems obtain s where s: "step cfg w ev st = Some s" and r: "run cfg evs s = Some st'"
    by (auto split: option.splits)
  from step_unset [OF Cons.prems(1) s] have "currentPinValue s = None" .
  from Cons.IH [OF this r] show ?case .
qed

text \<open>
  No run from construction accepts a transition: the last processed value stays unset, no
  ring is recorded and no sink rings.
\<close>

lemma step_inert:
  assumes "currentPinValue st = None" and "lastRang st = None" and "rings st = []"
    and "step cfg w ev st = Some st'"
  shows "lastRang st' = None \<and> rings st' = []"
proof (cases ev)
  case (Timeout k now1 now2)
  let ?s = "st\<lparr>timers := drop_nth k (timers st)\<rparr>"
  from Timeout assms(4) obtain pin ts where
    st': "st' = timerCallback cfg w now1 now2 pin ts ?s"
    by (auto split: if_splits prod.splits)
  have "rings ?s = []" and "lastRang ?s = None" and "currentPinValue ?s = None"
    using assms(1,2,3) by (simp_all add: rings_def)
  then show ?thesis
    by (simp add: st' timerCallback_unset emit_fields read_fields rings_emit)
next
  case (Settled k)
  let ?s = "st\<lparr>microtasks := drop_nth k (microtasks st)\<rparr>"
  from Settled assms(4) have st': "st' = settle w (microtasks st ! k) ?s"
    by (auto split: if_splits)
  have "rings ?s = []" and "lastRang ?s = None"
    using assms(2,3) by (simp_all add: rings_def)
  then show ?thesis
    by (simp add: st' settle_fields)
qed (use assms in \<open>auto simp add: handlePinChange_fields handleMuteSet_fields
       handleMuteGet_def emit_fields rings_emit\<close>)

lemma run_inert:
  assumes "currentPinValue st = None" and "lastRang st = None" and "rings st = []"
    and "run cfg evs st = Some st'"
  shows "currentPinValue st' = None \<and> lastRang st' = None \<and> rings st' = []"
  using assms
proof (induction evs arbitrary: st)
  case Nil
  then show ?case by simp
next
  case (Cons a evs)
  obtain w ev where a: "a = (w, ev)" by (cases a)
  with Cons.prems obtain s where s: "step cfg w ev st = Some s" and r: "run cfg evs s = Some st'"
    by (auto split: option.splits)
  from step_unset [OF Cons.prems(1) s] have u: "currentPinValue s = None" .
  from step_inert [OF Cons.prems(1,2,3) s] have "lastRang s = None" and "rings s = []"
    by simp_all
  from Cons.IH [OF u this r] show ?case .
qed

lemma constructed_inert:
  assumes "run cfg evs (constructor cfg persisted) = Some st"
  shows "currentPinValue st = None \<and> lastRang st = None \<and> rings st = []"
  using run_inert [OF _ _ _ assms] by (simp add: constructor_fields)

subsection \<open>Reading the pin\<close>

lemma read_value: "fst (read channel st) = None"
  by (simp add: read_def Let_def emit_def)

text \<open>
  C9: \<open>read(channel)\<close> returns \<open>undefined\<close> for every channel and every object state,
  whatever the pin holds (the result does not depend on the world, which is consulted only
  when the promise settles); so the value seeded at construction is \<open>undefined\<close>, and so is
  the value every timer callback compares with the last processed one.
\<close>

theorem read_always_undefined:
  "fst (read channel st) = None \<and>
   currentPinValue (constructor cfg persisted) = None \<and>
   timerCallback cfg w now1 now2 pin ts st =
     (if lastPinChangeDate st \<noteq> Some ts then emit (LogDebug IgnoreNotLast) st
      else processChange cfg w now1 now2 pin None (snd (read pin st)))"
  by (simp add: read_def constructor_def setupGpio_def timerCallback_def Let_def emit_def
      split: prod.splits)

subsection \<open>The press\<close>

text \<open>
  C8: the press is derived from the level and the flag alone: for a boolean level it is
  \<open>invertInput ? value : !value\<close>, and for any level, set or unset, its truth value is
  that of the specification's expression. An open circuit (level true) is no press
  without inversion and a press with it. The derivation takes and returns no state.
\<close>

theorem buttonPushed_derivation:
  "Some (buttonPushed (Some v) negate) = pushed_spec negate (Some v) \<and>
   buttonPushed lvl negate = truthy_boolean (pushed_spec negate lvl) \<and>
   buttonPushed (Some True) False = False \<and>
   buttonPushed (Some True) True = True"
  by (simp add: buttonPushed_def pushed_spec_def truthy_boolean_def split: option.splits)

subsection \<open>Mute\<close>

text \<open>
  C7: \<open>handleMuteSet(value)\<close> sets the flag to the value and stores the same value under
  the mute key, replacing what was there; it writes false to the output pin once exactly
  when the value is false and output is enabled, and writes nothing otherwise, whatever
  the state of the pin and the button.
\<close>

theorem handleMuteSet_effect:
  "doorbellMute (handleMuteSet cfg v st) = v \<and>
   storage (handleMuteSet cfg v st) = (storage st)(doorbellMuteKey \<mapsto> v) \<and>
   writes (handleMuteSet cfg v st) =
     writes st @ (if \<not> v \<and> enableOutput cfg then [GpioWrite (outputGpioPin cfg) False] else []) \<and>
   currentPinValue (handleMuteSet cfg v st) = currentPinValue st \<and>
   lastRang (handleMuteSet cfg v st) = lastRang st"
  by (simp add: handleMuteSet_def Let_def emit_def writes_def)

text \<open>
  C6: on every accepted transition (the value read differs from the last processed one)
  nothing is written to a pin while the bell is muted, and with output enabled and the
  bell not muted the output pin is written once, to the derived press. The flag is the
  one the object holds when the transition is processed: after \<open>handleMuteSet(m)\<close> the
  next transition is gated by \<open>m\<close>.
\<close>

theorem mute_gating:
  assumes "currentValue \<noteq> currentPinValue st"
  shows "writes (processChange cfg w now1 now2 pin currentValue st) =
           writes st @
           (if enableOutput cfg \<and> \<not> doorbellMute st
            then [GpioWrite (outputGpioPin cfg) (buttonPushed currentValue (negateInput cfg))]
            else []) \<and>
         writes (processChange cfg w now1 now2 pin currentValue (handleMuteSet cfg m st)) =
           writes (handleMuteSet cfg m st) @
           (if enableOutput cfg \<and> \<not> m
            then [GpioWrite (outputGpioPin cfg) (buttonPushed currentValue (negateInput cfg))]
            else [])"
proof -
  have one: "writes (processChange cfg w now1 now2 pin currentValue s) =
           writes s @
           (if enableOutput cfg \<and> \<not> doorbellMute s
            then [GpioWrite (outputGpioPin cfg) (buttonPushed currentValue (negateInput cfg))]
            else [])" if "currentValue \<noteq> currentPinValue s" for s
    using that
    by (simp add: processChange_accepted Let_def writes_emit forwardRing_fields
        mirrorOutput_fields writes_update)
  have "currentPinValue (handleMuteSet cfg m st) = currentPinValue st"
    and "doorbellMute (handleMuteSet cfg m st) = m"
    by (simp_all add: handleMuteSet_def Let_def emit_def)
  with one [of st] one [of "handleMuteSet cfg m st"] assms show ?thesis
    by simp
qed

theorem mute_gating_witness:
  "Some False \<noteq> currentPinValue (constructor sample_config Map.empty) \<and>
   writes (processChange sample_config quiet_world 2000 2000 7 (Some False)
             (constructor sample_config Map.empty)) = [GpioWrite 11 True] \<and>
   writes (processChange sample_config quiet_world 2000 2000 7 (Some False)
             (handleMuteSet sample_config True (constructor sample_config Map.empty))) = []"
proof -
  have h: "Some False \<noteq> currentPinValue (constructor sample_config Map.empty)"
    by (simp add: constructor_fields)
  show ?thesis
    using h mute_gating [OF h, of sample_config quiet_world 2000 2000 7 True]
    by (simp add: constructor_fields sample_config_fields buttonPushed_simps
        handleMuteSet_writes)
qed

subsection \<open>Dispatch\<close>

text \<open>
  C5: an accepted press that is not throttled rings exactly one sink: HomeKit when the
  webhook is switched off or has no URL, the webhook otherwise. An accepted transition
  that is no press rings no sink and leaves \<open>lastRang\<close> alone; its outcome is the same
  whatever \<open>lastRang\<close> holds.
\<close>

theorem dispatch_exclusive:
  assumes "currentValue \<noteq> currentPinValue st"
  shows "(buttonPushed currentValue (negateInput cfg) \<and> \<not> throttled cfg now1 st \<longrightarrow>
            rings (processChange cfg w now1 now2 pin currentValue st) =
              rings st @
              [if \<not> enableHttpTrigger cfg \<or> \<not> truthy_string (httpTriggerUrl cfg)
               then SinglePress else AxiosGet (the (httpTriggerUrl cfg))]) \<and>
         (\<not> buttonPushed currentValue (negateInput cfg) \<longrightarrow>
            rings (processChange cfg w now1 now2 pin currentValue st) = rings st \<and>
            lastRang (processChange cfg w now1 now2 pin currentValue st) = lastRang st \<and>
            (\<forall>r. processChange cfg w now1 now2 pin currentValue (st\<lparr>lastRang := r\<rparr>) =
                   (processChange cfg w now1 now2 pin currentValue st)\<lparr>lastRang := r\<rparr>))"
proof -
  have "currentValue \<noteq> currentPinValue (st\<lparr>lastRang := r\<rparr>)" for r
    using assms by simp
  then show ?thesis
    using assms
    by (simp add: processChange_accepted Let_def forwardRing_rings mirrorOutput_fields
        writes_update)
      (simp add: mirrorOutput_def emit_def)
qed

theorem dispatch_exclusive_witness:
  "Some False \<noteq> currentPinValue (constructor sample_config Map.empty) \<and>
   buttonPushed (Some False) (negateInput sample_config) \<and>
   \<not> throttled sample_config 2000 (constructor sample_config Map.empty) \<and>
   rings (processChange sample_config quiet_world 2000 2000 7 (Some False)
            (constructor sample_config Map.empty)) = [SinglePress] \<and>
   rings (processChange webhook_config quiet_world 2000 2000 7 (Some False)
            (constructor webhook_config Map.empty)) = [AxiosGet ''http://hub/ring''] \<and>
   \<not> buttonPushed (Some True) (negateInput sample_config) \<and>
   rings (processChange sample_config quiet_world 2000 2000 7 (Some True)
            (constructor sample_config Map.empty)) = []"
proof -
  have h1: "Some False \<noteq> currentPinValue (constructor sample_config Map.empty)"
    and h2: "Some False \<noteq> currentPinValue (constructor webhook_config Map.empty)"
    and h3: "Some True \<noteq> currentPinValue (constructor sample_config Map.empty)"
    by (simp_all add: constructor_fields)
  have t: "\<not> throttled cfg 2000 (constructor cfg Map.empty)" for cfg
    by (simp add: throttled_iff constructor_fields)
  show ?thesis
    using h1 t [of sample_config] t [of webhook_config]
      dispatch_exclusive [OF h1, of sample_config 2000 quiet_world 2000 7]
      dispatch_exclusive [OF h2, of webhook_config 2000 quiet_world 2000 7]
      dispatch_exclusive [OF h3, of sample_config 2000 quiet_world 2000 7]
    by (simp add: constructor_fields sample_config_fields webhook_config_fields
        buttonPushed_simps truthy_string_def)
qed

text \<open>
  C10: the output pin is written before the throttle test: on an accepted press with
  output enabled and the bell not muted the pin is written to true, throttled or not, and
  a throttled press rings no sink and keeps \<open>lastRang\<close>.
\<close>

theorem mirror_before_throttle:
  assumes "currentValue \<noteq> currentPinValue st"
    and "buttonPushed currentValue (negateInput cfg)"
    and "enableOutput cfg" and "\<not> doorbellMute st"
  shows "writes (processChange cfg w now1 now2 pin currentValue st) =
           writes st @ [GpioWrite (outputGpioPin cfg) True] \<and>
         (throttled cfg now1 st \<longrightarrow>
            rings (processChange cfg w now1 now2 pin currentValue st) = rings st \<and>
            lastRang (processChange cfg w now1 now2 pin currentValue st) = lastRang st \<and>
            processChange cfg w now1 now2 pin currentValue st =
              emit (LogDebug (ThrottleNotExpired pin))
                (emit (GpioWrite (outputGpioPin cfg) True)
                  (emit (LogDebug (SettingPin (outputGpioPin cfg) True))
                    (st\<lparr>currentPinValue := currentValue\<rparr>))))"
  using assms
  by (simp add: processChange_accepted Let_def forwardRing_fields mirrorOutput_fields
      writes_update writes_emit rings_emit emit_fields mirrorOutput_def)

theorem mirror_before_throttle_witness:
  "throttled sample_config 2000
     ((constructor sample_config Map.empty)\<lparr>lastRang := Some 1500\<rparr>) \<and>
   writes (processChange sample_config quiet_world 2000 2000 7 (Some False)
             ((constructor sample_config Map.empty)\<lparr>lastRang := Some 1500\<rparr>)) =
     [GpioWrite 11 True] \<and>
   rings (processChange sample_config quiet_world 2000 2000 7 (Some False)
            ((constructor sample_config Map.empty)\<lparr>lastRang := Some 1500\<rparr>)) = [] \<and>
   lastRang (processChange sample_config quiet_world 2000 2000 7 (Some False)
            ((constructor sample_config Map.empty)\<lparr>lastRang := Some 1500\<rparr>)) = Some 1500"
proof -
  let ?st = "(constructor sample_config Map.empty)\<lparr>lastRang := Some 1500\<rparr>"
  have h: "Some False \<noteq> currentPinValue ?st"
    and p: "buttonPushed (Some False) (negateInput sample_config)"
    and o: "enableOutput sample_config" and m: "\<not> doorbellMute ?st"
    and t: "throttled sample_config 2000 ?st"
    by (simp_all add: constructor_fields sample_config_fields buttonPushed_simps throttled_iff)
  show ?thesis
    using t mirror_before_throttle [OF h p o m, of quiet_world 2000 2000 7]
    by (simp add: constructor_fields sample_config_fields writes_update writes_emit
        rings_emit emit_fields)
qed

subsection \<open>Staleness and failed reads\<close>

text \<open>
  C3: in every state the object reaches from its construction, a timer callback that gets
  to the read while the read of the pin fails leaves \<open>currentPinValue\<close> and \<open>lastRang\<close> as
  they are, writes no pin and rings no sink; the callback returns normally with the read
  still pending, and when the promise settles the error is logged.
\<close>

theorem read_failure_indeterminate:
  assumes "run cfg evs (constructor cfg persisted) = Some st"
    and "lastPinChangeDate st = Some ts"
    and "gpio_read w pin = Inl err"
  shows "currentPinValue (timerCallback cfg w now1 now2 pin ts st) = currentPinValue st \<and>
         lastRang (timerCallback cfg w now1 now2 pin ts st) = lastRang st \<and>
         writes (timerCallback cfg w now1 now2 pin ts st) = writes st \<and>
         rings (timerCallback cfg w now1 now2 pin ts st) = rings st \<and>
         microtasks (timerCallback cfg w now1 now2 pin ts st) =
           microtasks st @ [ReadPending pin (length (cells st))] \<and>
         errors (settle w (ReadPending pin (length (cells st)))
                   (timerCallback cfg w now1 now2 pin ts st)) =
           errors (timerCallback cfg w now1 now2 pin ts st) @ [LogError (ReadFailed err)]"
proof -
  have "currentPinValue st = None"
    using run_unset [OF _ assms(1)] by (simp add: constructor_fields)
  then have "timerCallback cfg w now1 now2 pin ts st =
      emit (LogDebug (IgnoreNoChange None None)) (snd (read pin st))"
    using assms(2) by (simp add: timerCallback_unset)
  moreover have "errors (settle w (ReadPending pin c) s) = errors s @ [LogError (ReadFailed err)]"
    for c s
    using assms(3) by (simp add: errors_def emit_def)
  ultimately show ?thesis
    by (simp add: emit_fields read_fields writes_emit rings_emit)
qed

theorem read_failure_indeterminate_witness:
  "run sample_config [(quiet_world, Change 5 7 True)] (constructor sample_config Map.empty) =
     Some (handlePinChange sample_config 5 7 True (constructor sample_config Map.empty)) \<and>
   gpio_read failing_world 7 = Inl ''EIO'' \<and>
   currentPinValue (timerCallback sample_config failing_world 105 105 7 5
     (handlePinChange sample_config 5 7 True (constructor sample_config Map.empty))) = None \<and>
   writes (timerCallback sample_config failing_world 105 105 7 5
     (handlePinChange sample_config 5 7 True (constructor sample_config Map.empty))) = [] \<and>
   rings (timerCallback sample_config failing_world 105 105 7 5
     (handlePinChange sample_config 5 7 True (constructor sample_config Map.empty))) = [] \<and>
   errors (timerCallback sample_config failing_world 105 105 7 5
     (handlePinChange sample_config 5 7 True (constructor sample_config Map.empty))) = [] \<and>
   errors (settle failing_world (ReadPending 7 1)
     (timerCallback sample_config failing_world 105 105 7 5
       (handlePinChange sample_config 5 7 True (constructor sample_config Map.empty)))) =
     [LogError (ReadFailed ''EIO'')]"
proof -
  let ?st = "handlePinChange sample_config 5 7 True (constructor sample_config Map.empty)"
  have r: "run sample_config [(quiet_world, Change 5 7 True)]
             (constructor sample_config Map.empty) = Some ?st"
    by simp
  have d: "lastPinChangeDate ?st = Some 5"
    by (simp add: handlePinChange_fields)
  have f: "gpio_read failing_world 7 = Inl ''EIO''"
    by (simp add: failing_world_def)
  have e: "errors (timerCallback sample_config failing_world 105 105 7 5 ?st) = []"
    by (simp add: timerCallback_unset handlePinChange_fields constructor_fields errors_def
        emit_fields read_def Let_def)
      (simp add: emit_def handlePinChange_def constructor_def setupGpio_def read_def Let_def)
  show ?thesis
    using r f e read_failure_indeterminate [OF r d f, of 105 105]
    by (simp add: handlePinChange_fields constructor_fields constructor_cells)
qed

text \<open>
  C4, on the code: two changes reported in the same millisecond get the same identifier.
  When the timer of the first one fires, after the second change and a full \<open>glitchTime\<close>
  later, its callback passes the staleness test: it reads the pin and reports that the
  value does not differ, where a callback superseded by a later change is to report only
  that it is not the last one.
\<close>

theorem superseded_callback_not_stale:
  "(let st1 = handlePinChange sample_config 5 7 False (constructor sample_config Map.empty);
        st2 = handlePinChange sample_config 5 7 True st1
    in run sample_config [(quiet_world, Change 5 7 False), (quiet_world, Change 5 7 True)]
         (constructor sample_config Map.empty) = Some st2 \<and>
       lastPinChangeDate st1 = Some 5 \<and>
       lastPinChangeDate st2 = Some 5 \<and>
       timers st2 = [(100, 7, 5), (100, 7, 5)] \<and>
       step sample_config quiet_world (Timeout 0 105 105) st2 =
         Some (emit (LogDebug (IgnoreNoChange None None))
                (snd (read 7 (st2\<lparr>timers := [(100, 7, 5)]\<rparr>)))) \<and>
       effects (emit (LogDebug (IgnoreNoChange None None))
                 (snd (read 7 (st2\<lparr>timers := [(100, 7, 5)]\<rparr>)))) =
         effects st2 @ [GpioRead 7, LogDebug (IgnoreNoChange None None)])"
proof -
  let ?st1 = "handlePinChange sample_config 5 7 False (constructor sample_config Map.empty)"
  let ?st2 = "handlePinChange sample_config 5 7 True ?st1"
  let ?s = "?st2\<lparr>timers := [(100, 7, 5)]\<rparr>"
  have r: "run sample_config [(quiet_world, Change 5 7 False), (quiet_world, Change 5 7 True)]
         (constructor sample_config Map.empty) = Some ?st2"
    by simp
  have a: "lastPinChangeDate ?st1 = Some 5" and b: "lastPinChangeDate ?st2 = Some 5"
    and c: "timers ?st2 = [(100, 7, 5), (100, 7, 5)]"
    by (simp_all add: handlePinChange_fields constructor_fields sample_config_fields)
  have "timerCallback sample_config quiet_world 105 105 7 5 ?s =
          emit (LogDebug (IgnoreNoChange None None)) (snd (read 7 ?s))"
    by (simp add: timerCallback_unset handlePinChange_fields constructor_fields)
  then have d: "step sample_config quiet_world (Timeout 0 105 105) ?st2 =
         Some (emit (LogDebug (IgnoreNoChange None None)) (snd (read 7 ?s)))"
    by (simp add: c drop_nth_def)
  have e: "effects (emit (LogDebug (IgnoreNoChange None None)) (snd (read 7 ?s))) =
         effects ?st2 @ [GpioRead 7, LogDebug (IgnoreNoChange None None)]"
    by (simp add: emit_def read_def Let_def)
  show ?thesis
    unfolding Let_def using r a b c d e by blast
qed

end
